theory Spec2Isabelle
  imports Complex_Main "HOL-Library.List_Lexorder" "HOL-Library.Char_ord"
begin

section \<open>The hyperparameter optimisation notebook\<close>

text \<open>
  The development follows the notebook "Hyperparameter Optimization": the cells that
  define \<open>build_compile\<close>, the hyperparameter ranges, the loop over \<open>hp_sets\<close> that
  tracks the best validation accuracy, the cell that retrains the best model on the
  combined data, and the cell that evaluates it on the test set.

  Python values are dynamically typed; the values that occur in the hyperparameter
  dictionaries are integers, floats and strings. Floats are modelled as reals: the only
  float operations of the cells are the comparison \<open>valid_acc > best_valid_acc\<close> and the
  literal \<open>0.0\<close>, which agree with the reals on every float that is not NaN.
\<close>

datatype pyval = PInt int | PFloat real | PStr string

text \<open>A hyperparameter set and \<open>wandb.config\<close> are dictionaries from names to values.\<close>

type_synonym hp_set = "string \<rightharpoonup> pyval"
type_synonym config = "string \<rightharpoonup> pyval"

text \<open>The exceptions the cells can raise.\<close>

datatype error =
    AttributeError string
  | KeyError string
  | IndexError
  | ValueError string
  | LibraryError string

subsection \<open>Model creation\<close>

datatype layer =
    Conv2D pyval pyval pyval string "nat list option"
  | MaxPooling2D "nat \<times> nat"
  | Flatten
  | Dense pyval pyval
  | Dropout pyval

datatype optimizer = Adam pyval

datatype model =
  Model (layers: "layer list") (loss: string) (optimizer: optimizer) (metrics: "string list")

text \<open>Reading \<open>config.name\<close> raises when the configuration has no such entry.\<close>

definition getattr :: "config \<Rightarrow> string \<Rightarrow> error + pyval" where
  "getattr cfg k = (case cfg k of None \<Rightarrow> Inl (AttributeError k) | Some v \<Rightarrow> Inr v)"

definition bind_err :: "'e + 'a \<Rightarrow> ('a \<Rightarrow> 'e + 'b) \<Rightarrow> 'e + 'b" where
  "bind_err m f = (case m of Inl e \<Rightarrow> Inl e | Inr v \<Rightarrow> f v)"

text \<open>
  \<open>build_compile(config)\<close>: the attributes are read in the order in which the cell
  evaluates them; \<open>input_shape\<close> is \<open>X_train.shape[1:]\<close>.
\<close>

definition build_compile :: "nat list \<Rightarrow> config \<Rightarrow> error + model" where
  "build_compile input_shape cfg =
     bind_err (getattr cfg ''conv1_num_filters'') (\<lambda>conv1.
     bind_err (getattr cfg ''conv_filter_size'') (\<lambda>fsize.
     bind_err (getattr cfg ''activation'') (\<lambda>act.
     bind_err (getattr cfg ''conv2_num_filters'') (\<lambda>conv2.
     bind_err (getattr cfg ''conv3_num_filters'') (\<lambda>conv3.
     bind_err (getattr cfg ''conv4_num_filters'') (\<lambda>conv4.
     bind_err (getattr cfg ''conv5_num_filters'') (\<lambda>conv5.
     bind_err (getattr cfg ''dense1_size'') (\<lambda>dense1.
     bind_err (getattr cfg ''dropout'') (\<lambda>dropout.
     bind_err (getattr cfg ''learn_rate'') (\<lambda>learn_rate.
       Inr (Model
         [Conv2D conv1 fsize act ''same'' (Some input_shape),
          MaxPooling2D (2, 2),
          Conv2D conv2 fsize act ''same'' None,
          Conv2D conv3 fsize act ''same'' None,
          MaxPooling2D (2, 2),
          Conv2D conv4 fsize act ''same'' None,
          Conv2D conv5 fsize act ''same'' None,
          MaxPooling2D (2, 2),
          Flatten,
          Dense dense1 act,
          Dropout dropout,
          Dense (PInt 10) (PStr ''softmax'')]
         ''categorical_crossentropy''
         (Adam learn_rate)
         [''accuracy''])))))))))))"

subsection \<open>Data and the training library\<close>

text \<open>
  A sample is an image together with its label. The data cell loads the combined
  training and validation data and the test data, and splits the former with
  \<open>train_test_split\<close>, which is a library function and a parameter here.
\<close>

record 's data =
  X_train_valid :: "'s list"
  X_test :: "'s list"
  X_train :: "'s list"
  X_valid :: "'s list"
  image_shape :: "nat list"

definition prepare_data ::
  "('s list \<Rightarrow> 's list \<times> 's list) \<Rightarrow> 's list \<Rightarrow> 's list \<Rightarrow> nat list \<Rightarrow> 's data" where
  "prepare_data train_test_split loaded_train loaded_test shape =
     (let (tr, va) = train_test_split loaded_train
      in \<lparr>X_train_valid = loaded_train, X_test = loaded_test,
          X_train = tr, X_valid = va, image_shape = shape\<rparr>)"

datatype 's fit_args =
  FitArgs (fit_data: "'s list") (fit_batch_size: pyval) (fit_epochs: pyval)
          (fit_validation_data: "'s list option")

datatype 's call =
    FitCall model "'s fit_args"
  | EvaluateCall model "'s list" pyval

type_synonym history = "string \<rightharpoonup> real list"

text \<open>
  \<open>model.fit\<close>, \<open>model.evaluate\<close> and \<open>model.count_params\<close> belong to the training
  library. They are parameters of the development. Training is not a function of its
  arguments alone (weights are initialised at random, and a model object keeps its
  weights between calls), so each answer may depend on all library calls made before.
\<close>

record 's env =
  fit :: "'s call list \<Rightarrow> model \<Rightarrow> 's fit_args \<Rightarrow> error + history"
  evaluate :: "'s call list \<Rightarrow> model \<Rightarrow> 's list \<Rightarrow> pyval \<Rightarrow> error + real \<times> real"
  count_params :: "model \<Rightarrow> int"

subsection \<open>The sweep\<close>

definition static_hyper_params :: config where
  "static_hyper_params =
     [''activation'' \<mapsto> PStr ''relu'', ''conv_filter_size'' \<mapsto> PInt 3, ''num_epochs'' \<mapsto> PInt 2]"

datatype trial_result =
  TrialResult (trial_ind: nat) (trial_hp_set: hp_set) (trial_valid_acc: real)

text \<open>
  The variables of the notebook that the cells below read and write. \<open>calls\<close> is the
  sequence of training-library calls made so far. \<open>trial_results\<close> is a history
  variable: it collects, for every iteration that reaches the assignment to
  \<open>valid_acc\<close>, the index, the hyperparameter set and that value.

  \<open>best_hp_set = hp_set\<close> stores a reference to the dictionary of the current trial.
  Every trial has a dictionary of its own and no cell writes into one, so the stored
  set is modelled as a value.
\<close>

record 's state =
  config :: config
  best_valid_acc :: real
  best_hp_set :: "hp_set option"
  best_hp_ind :: "nat option"
  calls :: "'s call list"
  trial_results :: "trial_result list"

text \<open>\<open>history.history['val_acc'][-1]\<close>\<close>

definition final_val_acc :: "history \<Rightarrow> error + real" where
  "final_val_acc h =
     (case h ''val_acc'' of
        None \<Rightarrow> Inl (KeyError ''val_acc'')
      | Some accs \<Rightarrow> (if accs = [] then Inl IndexError else Inr (last accs)))"

text \<open>
  The body of the loop up to the assignment of \<open>valid_acc\<close>: the two updates of
  \<open>wandb.config\<close>, \<open>build_compile\<close>, the entry \<open>num_model_parameters\<close>, and \<open>fit\<close> with
  the batch size and the number of epochs read from the configuration. A raise leaves
  the notebook's variables as they are at that point. \<open>wandb.init()\<close> and the printing
  of headers, sets and summaries write no variable that the cells read and are left out.
\<close>

definition run_trial ::
  "'s env \<Rightarrow> 's data \<Rightarrow> hp_set \<Rightarrow> 's state \<Rightarrow> (error \<times> 's state) + (real \<times> 's state)" where
  "run_trial env d hp_set st =
     (let st1 = st\<lparr>config := config st ++ static_hyper_params\<rparr>;
          st2 = st1\<lparr>config := config st1 ++ hp_set\<rparr>
      in (case build_compile (image_shape d) (config st2) of
            Inl e \<Rightarrow> Inl (e, st2)
          | Inr m \<Rightarrow>
             (let st3 = st2\<lparr>config :=
                          (config st2)(''num_model_parameters'' \<mapsto> PInt (count_params env m))\<rparr>
              in (case getattr (config st3) ''batch_size'' of
                    Inl e \<Rightarrow> Inl (e, st3)
                  | Inr bs \<Rightarrow>
                     (case getattr (config st3) ''num_epochs'' of
                        Inl e \<Rightarrow> Inl (e, st3)
                      | Inr ep \<Rightarrow>
                         (let args = FitArgs (X_train d) bs ep (Some (X_valid d));
                              st4 = st3\<lparr>calls := calls st3 @ [FitCall m args]\<rparr>
                          in (case fit env (calls st3) m args of
                                Inl e \<Rightarrow> Inl (e, st4)
                              | Inr h \<Rightarrow>
                                 (case final_val_acc h of
                                    Inl e \<Rightarrow> Inl (e, st4)
                                  | Inr valid_acc \<Rightarrow> Inr (valid_acc, st4)))))))))"

text \<open>"track best model so far"\<close>

definition track_best :: "nat \<Rightarrow> hp_set \<Rightarrow> real \<Rightarrow> 's state \<Rightarrow> 's state" where
  "track_best hp_ind hp_set valid_acc st =
     (if valid_acc > best_valid_acc st
      then st\<lparr>best_valid_acc := valid_acc, best_hp_set := Some hp_set, best_hp_ind := Some hp_ind\<rparr>
      else st)"

text \<open>One iteration of \<open>for hp_ind, hp_set in enumerate(hp_sets)\<close>.\<close>

definition sweep_step ::
  "'s env \<Rightarrow> 's data \<Rightarrow> nat \<times> hp_set \<Rightarrow> 's state \<Rightarrow> (error \<times> 's state) + 's state" where
  "sweep_step env d ih st =
     (case run_trial env d (snd ih) st of
        Inl e \<Rightarrow> Inl e
      | Inr (valid_acc, st') \<Rightarrow>
          Inr (track_best (fst ih) (snd ih) valid_acc
                 (st'\<lparr>trial_results :=
                        trial_results st' @ [TrialResult (fst ih) (snd ih) valid_acc]\<rparr>)))"

fun sweep_loop ::
  "'s env \<Rightarrow> 's data \<Rightarrow> (nat \<times> hp_set) list \<Rightarrow> 's state \<Rightarrow> (error \<times> 's state) + 's state" where
  "sweep_loop env d [] st = Inr st"
| "sweep_loop env d (ih # rest) st =
     (case sweep_step env d ih st of
        Inl e \<Rightarrow> Inl e
      | Inr st' \<Rightarrow> sweep_loop env d rest st')"

text \<open>The states at the end of each completed iteration, in order.\<close>

fun sweep_trace :: "'s env \<Rightarrow> 's data \<Rightarrow> (nat \<times> hp_set) list \<Rightarrow> 's state \<Rightarrow> 's state list" where
  "sweep_trace env d [] st = []"
| "sweep_trace env d (ih # rest) st =
     (case sweep_step env d ih st of
        Inl e \<Rightarrow> []
      | Inr st' \<Rightarrow> st' # sweep_trace env d rest st')"

definition init_best :: "'s state \<Rightarrow> 's state" where
  "init_best st =
     st\<lparr>best_valid_acc := 0, best_hp_set := None, best_hp_ind := None, trial_results := []\<rparr>"

text \<open>The whole cell: the three initialisations, then the loop.\<close>

definition sweep :: "'s env \<Rightarrow> 's data \<Rightarrow> hp_set list \<Rightarrow> 's state \<Rightarrow> (error \<times> 's state) + 's state" where
  "sweep env d hp_sets st = sweep_loop env d (enumerate 0 hp_sets) (init_best st)"

subsection \<open>Retraining and evaluation\<close>

text \<open>
  The retraining cell first calls \<open>print_dict(best_hp_set)\<close>, which evaluates
  \<open>d.items()\<close> and so raises when \<open>best_hp_set\<close> is \<open>None\<close>. The cell then updates
  \<open>wandb.config\<close> with the set, builds the model from \<open>wandb.config\<close> and fits it on
  \<open>X_train_valid\<close> without validation data.

  \<open>wandb.config.update\<close> is a call into the experiment tracker. Here and in the loop it
  is modelled as the assignment of every entry of its argument. The loop passes
  \<open>allow_val_change=True\<close> and this cell does not; a tracker that refuses to overwrite
  an entry would raise here, which would be one more way for the cell to end in an
  error and leaves every statement about a run that returns as it is.
\<close>

definition retrain ::
  "'s env \<Rightarrow> 's data \<Rightarrow> 's state \<Rightarrow> (error \<times> 's state) + (model \<times> 's state)" where
  "retrain env d st =
     (case best_hp_set st of
        None \<Rightarrow> Inl (AttributeError ''items'', st)
      | Some best \<Rightarrow>
         (let st1 = st\<lparr>config := config st ++ best\<rparr>
          in (case build_compile (image_shape d) (config st1) of
                Inl e \<Rightarrow> Inl (e, st1)
              | Inr m \<Rightarrow>
                 (case getattr (config st1) ''batch_size'' of
                    Inl e \<Rightarrow> Inl (e, st1)
                  | Inr bs \<Rightarrow>
                     (case getattr (config st1) ''num_epochs'' of
                        Inl e \<Rightarrow> Inl (e, st1)
                      | Inr ep \<Rightarrow>
                         (let args = FitArgs (X_train_valid d) bs ep None;
                              st2 = st1\<lparr>calls := calls st1 @ [FitCall m args]\<rparr>
                          in (case fit env (calls st1) m args of
                                Inl e \<Rightarrow> Inl (e, st2)
                              | Inr h \<Rightarrow> Inr (m, st2))))))))"

definition evaluate_test ::
  "'s env \<Rightarrow> 's data \<Rightarrow> model \<Rightarrow> 's state \<Rightarrow> (error \<times> 's state) + ((real \<times> real) \<times> 's state)" where
  "evaluate_test env d m st =
     (case getattr (config st) ''batch_size'' of
        Inl e \<Rightarrow> Inl (e, st)
      | Inr bs \<Rightarrow>
         (let st1 = st\<lparr>calls := calls st @ [EvaluateCall m (X_test d) bs]\<rparr>
          in (case evaluate env (calls st) m (X_test d) bs of
                Inl e \<Rightarrow> Inl (e, st1)
              | Inr la \<Rightarrow> Inr (la, st1))))"

text \<open>
  What the last cells report: the index and the accuracy of the best set, the set
  itself, and the test loss and accuracy.
\<close>

datatype report =
  Report (report_hp_ind: "nat option") (report_valid_acc: real)
         (report_hp_set: "hp_set option") (report_test: "real \<times> real")

text \<open>The cells run in order; a raise in one of them ends the run.\<close>

definition notebook ::
  "'s env \<Rightarrow> 's data \<Rightarrow> hp_set list \<Rightarrow> 's state \<Rightarrow> (error \<times> 's state) + (report \<times> 's state)" where
  "notebook env d hp_sets st =
     (case sweep env d hp_sets st of
        Inl e \<Rightarrow> Inl e
      | Inr st1 \<Rightarrow>
         (case retrain env d st1 of
            Inl e \<Rightarrow> Inl e
          | Inr (m, st2) \<Rightarrow>
             (case evaluate_test env d m st2 of
                Inl e \<Rightarrow> Inl e
              | Inr (la, st3) \<Rightarrow>
                  Inr (Report (best_hp_ind st1) (best_valid_acc st1) (best_hp_set st1) la,
                       st3))))"

subsection \<open>Hyperparameter selection\<close>

text \<open>
  A range is a list of candidate values or a distribution object: \<open>uniform\<close> is the
  uniform distribution on the unit interval, \<open>randint(low, high)\<close> the integers from
  \<open>low\<close> up to, excluding, \<open>high\<close>. The dictionary of ranges is given by its items, in
  some order: a dictionary has no order of its own, and the order in which the
  interpreter enumerates its items is not fixed by the notebook.
\<close>

datatype dist = Choices "pyval list" | Uniform | RandInt int int

definition hp_ranges :: "(string \<times> dist) list" where
  "hp_ranges =
     [(''conv1_num_filters'', Choices [PInt 32, PInt 64, PInt 128]),
      (''conv2_num_filters'', Choices [PInt 32, PInt 64, PInt 128]),
      (''conv3_num_filters'', Choices [PInt 32, PInt 64, PInt 128]),
      (''conv4_num_filters'', Choices [PInt 32, PInt 64, PInt 128]),
      (''conv5_num_filters'', Choices [PInt 32, PInt 64, PInt 128]),
      (''dense1_size'', Choices [PInt 32, PInt 64, PInt 128, PInt 256, PInt 512]),
      (''dropout'', Uniform),
      (''learn_rate'', Choices [PFloat (1 / 10), PFloat (3 / 100), PFloat (1 / 1000)]),
      (''batch_size'', Choices [PInt 8, PInt 16, PInt 32, PInt 64, PInt 128])]"

text \<open>
  A pseudo-random generator with states \<open>'g\<close>: the state a seed gives, and the draws
  the sampler needs, each returning the value drawn and the next state.
\<close>

record 'g rng =
  seed_rng :: "nat \<Rightarrow> 'g"
  rand_index :: "nat \<Rightarrow> 'g \<Rightarrow> nat \<times> 'g"
  rand_unit :: "'g \<Rightarrow> real \<times> 'g"
  rand_int :: "int \<Rightarrow> int \<Rightarrow> 'g \<Rightarrow> int \<times> 'g"

text \<open>
  Modelled from the spec: \<open>ParameterSampler\<close> is scikit-learn's and is not part of the
  sources. The model follows the contract of the sweep driver: for each of \<open>n_iter\<close>
  independent draws one hyperparameter set is produced, every parameter with a list of
  candidates gets one of the listed values, chosen by a uniform index, and every
  parameter with a distribution gets a draw from it. With a seed the draws start from
  the generator state that the seed fixes; without one they continue from the ambient
  generator state \<open>g\<close>. Choosing from an empty list or an empty integer range raises.
\<close>

fun draw_value :: "'g rng \<Rightarrow> dist \<Rightarrow> 'g \<Rightarrow> (error + pyval) \<times> 'g" where
  "draw_value r (Choices vs) g =
     (if vs = [] then (Inl (ValueError ''empty range''), g)
      else (let (i, g') = rand_index r (length vs) g
            in (if i < length vs then Inr (vs ! i) else Inl IndexError, g')))"
| "draw_value r Uniform g = (let (u, g') = rand_unit r g in (Inr (PFloat u), g'))"
| "draw_value r (RandInt lo hi) g =
     (if lo < hi then (let (i, g') = rand_int r lo hi g in (Inr (PInt i), g'))
      else (Inl (ValueError ''empty range''), g))"

text \<open>
  Modelled from the spec: one draw of the sampler, a value for every parameter of the
  ranges, collected in a new dictionary.
\<close>

fun draw_set :: "'g rng \<Rightarrow> (string \<times> dist) list \<Rightarrow> hp_set \<Rightarrow> 'g \<Rightarrow> (error + hp_set) \<times> 'g" where
  "draw_set r [] params g = (Inr params, g)"
| "draw_set r (kd # items) params g =
     (case draw_value r (snd kd) g of
        (Inl e, g') \<Rightarrow> (Inl e, g')
      | (Inr v, g') \<Rightarrow> draw_set r items (params(fst kd \<mapsto> v)) g')"

text \<open>
  Modelled from the spec: \<open>n\<close> draws, one after the other, the generator state
  passed along.
\<close>

fun draw_sets :: "'g rng \<Rightarrow> (string \<times> dist) list \<Rightarrow> nat \<Rightarrow> 'g \<Rightarrow> (error + hp_set list) \<times> 'g" where
  "draw_sets r ranges 0 g = (Inr [], g)"
| "draw_sets r ranges (Suc n) g =
     (case draw_set r ranges Map.empty g of
        (Inl e, g') \<Rightarrow> (Inl e, g')
      | (Inr hp, g') \<Rightarrow>
         (case draw_sets r ranges n g' of
            (Inl e, g'') \<Rightarrow> (Inl e, g'')
          | (Inr hps, g'') \<Rightarrow> (Inr (hp # hps), g'')))"

text \<open>
  Modelled from the spec: the sampler with its fixed seed, or without one. The range
  specification is a mapping from names to ranges and the sampled sets must be
  reproducible across runs, so the draws may not depend on the order in which a run
  enumerates the items of the dictionary: the sampler visits the parameters in the
  order of their names.
\<close>

definition ParameterSampler ::
  "'g rng \<Rightarrow> (string \<times> dist) list \<Rightarrow> nat \<Rightarrow> nat option \<Rightarrow> 'g \<Rightarrow> (error + hp_set list) \<times> 'g" where
  "ParameterSampler r ranges n_iter random_state g =
     (case random_state of
        Some seed \<Rightarrow> (fst (draw_sets r (sort_key fst ranges) n_iter (seed_rng r seed)), g)
      | None \<Rightarrow> draw_sets r (sort_key fst ranges) n_iter g)"

text \<open>
  \<open>hp_sets = ParameterSampler(hp_ranges, n_iter=2, random_state=99)\<close>. The notebook
  iterates over \<open>hp_sets\<close> twice, to print the sets and to run the sweep; with a seed
  both iterations start from the same generator state, and \<open>hp_sets\<close> is the list of
  sets that either of them yields.
\<close>

definition hp_sets_of :: "'g rng \<Rightarrow> 'g \<Rightarrow> error + hp_set list" where
  "hp_sets_of r g = fst (ParameterSampler r hp_ranges 2 (Some 99) g)"

text \<open>What it means for a value to lie in a range.\<close>

fun in_range :: "dist \<Rightarrow> pyval \<Rightarrow> bool" where
  "in_range (Choices vs) v = (v \<in> set vs)"
| "in_range Uniform (PFloat u) = (0 \<le> u \<and> u \<le> 1)"
| "in_range Uniform _ = False"
| "in_range (RandInt lo hi) (PInt i) = (lo \<le> i \<and> i < hi)"
| "in_range (RandInt lo hi) _ = False"

text \<open>A generator keeps its promises: an index below the bound, a number in the unit
  interval, an integer in the half-open range.\<close>

definition rng_ok :: "'g rng \<Rightarrow> bool" where
  "rng_ok r \<longleftrightarrow>
     (\<forall>n g. 0 < n \<longrightarrow> fst (rand_index r n g) < n) \<and>
     (\<forall>g. 0 \<le> fst (rand_unit r g) \<and> fst (rand_unit r g) \<le> 1) \<and>
     (\<forall>lo hi g. lo < hi \<longrightarrow> lo \<le> fst (rand_int r lo hi g) \<and> fst (rand_int r lo hi g) < hi)"

subsection \<open>A small concrete instance\<close>

text \<open>
  A generator, a training library and data on which the definitions can be run: the
  generator counts, training reports the learning rate as the accuracy of its last
  epoch and raises when the learning rate is not a float.
\<close>

definition counter_rng :: "nat rng" where
  "counter_rng =
     \<lparr>seed_rng = (\<lambda>s. s),
      rand_index = (\<lambda>n g. (g mod n, Suc g)),
      rand_unit = (\<lambda>g. (real (g mod 10) / 10, Suc g)),
      rand_int = (\<lambda>lo hi g. (lo + int g mod (hi - lo), Suc g))\<rparr>"

definition demo_hp :: "pyval \<Rightarrow> hp_set" where
  "demo_hp lr =
     [''conv1_num_filters'' \<mapsto> PInt 32, ''conv2_num_filters'' \<mapsto> PInt 32,
      ''conv3_num_filters'' \<mapsto> PInt 64, ''conv4_num_filters'' \<mapsto> PInt 64,
      ''conv5_num_filters'' \<mapsto> PInt 128, ''dense1_size'' \<mapsto> PInt 256,
      ''dropout'' \<mapsto> PFloat (1 / 2), ''learn_rate'' \<mapsto> lr, ''batch_size'' \<mapsto> PInt 16]"

definition demo_fit :: "nat call list \<Rightarrow> model \<Rightarrow> nat fit_args \<Rightarrow> error + history" where
  "demo_fit cs m a =
     (case optimizer m of
        Adam (PFloat lr) \<Rightarrow> Inr [''val_acc'' \<mapsto> [lr / 2, lr]]
      | Adam _ \<Rightarrow> Inl (LibraryError ''fit''))"

definition demo_env :: "nat env" where
  "demo_env =
     \<lparr>fit = demo_fit,
      evaluate = (\<lambda>cs m xs bs. Inr (1 / 2, 1 / 4)),
      count_params = (\<lambda>m. int (length (layers m)))\<rparr>"

definition demo_data :: "nat data" where
  "demo_data = prepare_data (\<lambda>xs. (butlast xs, [last xs])) [1, 2, 3] [4] [32, 32, 3]"

definition demo_state :: "nat state" where
  "demo_state =
     \<lparr>config = Map.empty, best_valid_acc = 0, best_hp_set = None, best_hp_ind = None,
      calls = [], trial_results = []\<rparr>"

text \<open>
  The states in which a trial of the instance ends: after the assignment to
  \<open>valid_acc\<close> when training returns, and at the raise when it does not.
\<close>

definition demo_next :: "pyval \<Rightarrow> nat state \<Rightarrow> nat state" where
  "demo_next lr st = snd (projr (run_trial demo_env demo_data (demo_hp lr) st))"

definition demo_failed :: "pyval \<Rightarrow> nat state \<Rightarrow> nat state" where
  "demo_failed lr st = snd (projl (run_trial demo_env demo_data (demo_hp lr) st))"

definition demo_sweep :: "hp_set list \<Rightarrow> (error \<times> nat state) + nat state" where
  "demo_sweep hps = sweep demo_env demo_data hps demo_state"



section \<open>Properties of the sweep\<close>

subsection \<open>The tracking invariant\<close>

text \<open>
  What the three \<open>best\<close> variables know about the trial results so far: the best
  accuracy bounds every recorded accuracy and is never negative; while no index is
  stored, no set is stored and the best accuracy is still the initial \<open>0.0\<close>; a stored
  index belongs to a recorded trial with the best accuracy, and every earlier trial is
  strictly worse.
\<close>

definition best_tracks :: "'s state \<Rightarrow> bool" where
  "best_tracks st \<longleftrightarrow>
     (\<forall>r \<in> set (trial_results st). trial_valid_acc r \<le> best_valid_acc st) \<and>
     0 \<le> best_valid_acc st \<and>
     (case best_hp_ind st of
        None \<Rightarrow> best_hp_set st = None \<and> best_valid_acc st = 0
      | Some i \<Rightarrow>
          0 < best_valid_acc st \<and>
          (\<exists>k hp. k < length (trial_results st) \<and>
             trial_results st ! k = TrialResult i hp (best_valid_acc st) \<and>
             best_hp_set st = Some hp \<and>
             (\<forall>j<k. trial_valid_acc (trial_results st ! j) < best_valid_acc st)))"

subsection \<open>One trial and one iteration\<close>

lemma run_trial_Inr:
  assumes "run_trial env d hp st = Inr (acc, st')"
  shows "\<exists>m bs ep h accs.
      build_compile (image_shape d) (config st ++ static_hyper_params ++ hp) = Inr m \<and>
      getattr ((config st ++ static_hyper_params ++ hp)(''num_model_parameters'' \<mapsto> PInt (count_params env m))) ''batch_size'' = Inr bs \<and>
      getattr ((config st ++ static_hyper_params ++ hp)(''num_model_parameters'' \<mapsto> PInt (count_params env m))) ''num_epochs'' = Inr ep \<and>
      fit env (calls st) m (FitArgs (X_train d) bs ep (Some (X_valid d))) = Inr h \<and>
      h ''val_acc'' = Some accs \<and> accs \<noteq> [] \<and> acc = last accs \<and>
      st' = st\<lparr>config := (config st ++ static_hyper_params ++ hp)(''num_model_parameters'' \<mapsto> PInt (count_params env m)),
               calls := calls st @ [FitCall m (FitArgs (X_train d) bs ep (Some (X_valid d)))]\<rparr>"
  using assms
  by (auto simp: run_trial_def Let_def final_val_acc_def split: sum.splits option.splits if_splits)

lemma run_trial_Inl:
  assumes "run_trial env d hp st = Inl (e, st')"
  shows "best_valid_acc st' = best_valid_acc st \<and> best_hp_set st' = best_hp_set st \<and>
         best_hp_ind st' = best_hp_ind st \<and> trial_results st' = trial_results st \<and>
         (calls st' = calls st \<or> (\<exists>c. calls st' = calls st @ [c]))"
  using assms
  by (auto simp: run_trial_def Let_def split: sum.splits)

lemma sweep_step_Inr:
  assumes "sweep_step env d ih st = Inr st'"
  shows "\<exists>acc s1. run_trial env d (snd ih) st = Inr (acc, s1) \<and>
           trial_results st' = trial_results st @ [TrialResult (fst ih) (snd ih) acc] \<and>
           calls st' = calls s1 \<and> config st' = config s1 \<and>
           (if best_valid_acc st < acc
            then best_valid_acc st' = acc \<and> best_hp_set st' = Some (snd ih) \<and> best_hp_ind st' = Some (fst ih)
            else best_valid_acc st' = best_valid_acc st \<and> best_hp_set st' = best_hp_set st \<and>
                 best_hp_ind st' = best_hp_ind st)"
proof -
  from assms obtain acc s1 where rt: "run_trial env d (snd ih) st = Inr (acc, s1)"
    and st': "st' = track_best (fst ih) (snd ih) acc
                 (s1\<lparr>trial_results := trial_results s1 @ [TrialResult (fst ih) (snd ih) acc]\<rparr>)"
    by (auto simp: sweep_step_def split: sum.splits)
  from run_trial_Inr[OF rt] have same: "best_valid_acc s1 = best_valid_acc st"
    "best_hp_set s1 = best_hp_set st" "best_hp_ind s1 = best_hp_ind st"
    "trial_results s1 = trial_results st"
    by auto
  show ?thesis
    using rt st' same by (auto simp: track_best_def)
qed

lemma sweep_step_Inl:
  assumes "sweep_step env d ih st = Inl (e, st')"
  shows "run_trial env d (snd ih) st = Inl (e, st')"
  using assms by (auto simp: sweep_step_def split: sum.splits)

lemma sweep_loop_append:
  "sweep_loop env d (xs @ ys) st =
     (case sweep_loop env d xs st of Inl e \<Rightarrow> Inl e | Inr st' \<Rightarrow> sweep_loop env d ys st')"
  by (induction xs arbitrary: st) (auto split: sum.splits)

lemma sweep_step_calls:
  assumes "sweep_step env d ih st = Inr st'"
  shows "\<exists>m a. calls st' = calls st @ [FitCall m a]"
  using sweep_step_Inr[OF assms] by (auto dest!: run_trial_Inr)


lemma best_tracks_init: "best_tracks (init_best st)"
  by (simp add: best_tracks_def init_best_def)

lemma best_tracks_step:
  assumes step: "sweep_step env d ih st = Inr st'" and inv: "best_tracks st"
  shows "best_tracks st'"
proof -
  from sweep_step_Inr[OF step] obtain acc where
    rs: "trial_results st' = trial_results st @ [TrialResult (fst ih) (snd ih) acc]" and
    upd: "if best_valid_acc st < acc
          then best_valid_acc st' = acc \<and> best_hp_set st' = Some (snd ih) \<and> best_hp_ind st' = Some (fst ih)
          else best_valid_acc st' = best_valid_acc st \<and> best_hp_set st' = best_hp_set st \<and>
               best_hp_ind st' = best_hp_ind st"
    by blast
  from inv have le: "\<forall>r \<in> set (trial_results st). trial_valid_acc r \<le> best_valid_acc st"
    and nonneg: "0 \<le> best_valid_acc st"
    by (simp_all add: best_tracks_def)
  show ?thesis
  proof (cases "best_valid_acc st < acc")
    case True
    with upd have new: "best_valid_acc st' = acc" "best_hp_set st' = Some (snd ih)"
      "best_hp_ind st' = Some (fst ih)" by simp_all
    have below: "\<forall>j<length (trial_results st). trial_valid_acc (trial_results st ! j) < acc"
      using le True by (metis le_less_trans nth_mem)
    have "\<forall>r \<in> set (trial_results st'). trial_valid_acc r \<le> acc"
      using le True rs by auto
    moreover have "0 < acc" using nonneg True by simp
    moreover have "\<exists>k hp. k < length (trial_results st') \<and>
             trial_results st' ! k = TrialResult (fst ih) hp acc \<and>
             Some (snd ih) = Some hp \<and>
             (\<forall>j<k. trial_valid_acc (trial_results st' ! j) < acc)"
      using below rs
      by (intro exI[of _ "length (trial_results st)"] exI[of _ "snd ih"]) (simp add: nth_append)
    ultimately show ?thesis
      by (simp add: best_tracks_def new)
  next
    case False
    with upd have same: "best_valid_acc st' = best_valid_acc st" "best_hp_set st' = best_hp_set st"
      "best_hp_ind st' = best_hp_ind st" by simp_all
    have all: "\<forall>r \<in> set (trial_results st'). trial_valid_acc r \<le> best_valid_acc st"
      using le False rs by auto
    show ?thesis
    proof (cases "best_hp_ind st")
      case None
      with inv all nonneg show ?thesis
        by (simp add: best_tracks_def same)
    next
      case (Some i)
      with inv obtain k hp where k: "k < length (trial_results st)"
        "trial_results st ! k = TrialResult i hp (best_valid_acc st)"
        "best_hp_set st = Some hp"
        "\<forall>j<k. trial_valid_acc (trial_results st ! j) < best_valid_acc st"
        and pos: "0 < best_valid_acc st"
        by (auto simp: best_tracks_def)
      have "k < length (trial_results st') \<and>
             trial_results st' ! k = TrialResult i hp (best_valid_acc st) \<and>
             best_hp_set st = Some hp \<and>
             (\<forall>j<k. trial_valid_acc (trial_results st' ! j) < best_valid_acc st)"
        using k rs by (simp add: nth_append)
      then show ?thesis
        using all pos Some by (auto simp: best_tracks_def same)
    qed
  qed
qed

lemma best_tracks_loop:
  "sweep_loop env d xs st = Inr st' \<Longrightarrow> best_tracks st \<Longrightarrow> best_tracks st'"
proof (induction xs arbitrary: st)
  case Nil
  then show ?case by simp
next
  case (Cons ih xs)
  from Cons.prems(1) obtain s1 where s1: "sweep_step env d ih st = Inr s1"
    and rest: "sweep_loop env d xs s1 = Inr st'"
    by (auto split: sum.splits)
  from best_tracks_step[OF s1 Cons.prems(2)] Cons.IH[OF rest] show ?case by blast
qed

lemma sweep_loop_results:
  "sweep_loop env d xs st = Inr st' \<Longrightarrow>
     map trial_ind (trial_results st') = map trial_ind (trial_results st) @ map fst xs \<and>
     map trial_hp_set (trial_results st') = map trial_hp_set (trial_results st) @ map snd xs \<and>
     length (calls st') = length (calls st) + length xs"
proof (induction xs arbitrary: st)
  case Nil
  then show ?case by simp
next
  case (Cons ih xs)
  from Cons.prems(1) obtain s1 where s1: "sweep_step env d ih st = Inr s1"
    and rest: "sweep_loop env d xs s1 = Inr st'"
    by (auto split: sum.splits)
  from sweep_step_Inr[OF s1] sweep_step_calls[OF s1] Cons.IH[OF rest] show ?case
    by auto
qed

lemma sweep_results:
  assumes "sweep env d hp_sets st = Inr st'"
  shows "map trial_ind (trial_results st') = [0..<length hp_sets] \<and>
         map trial_hp_set (trial_results st') = hp_sets \<and>
         length (trial_results st') = length hp_sets \<and>
         length (calls st') = length (calls st) + length hp_sets"
proof -
  from assms have "sweep_loop env d (enumerate 0 hp_sets) (init_best st) = Inr st'"
    by (simp add: sweep_def)
  from sweep_loop_results[OF this]
  have a: "map trial_ind (trial_results st') = [0..<length hp_sets]"
    and b: "map trial_hp_set (trial_results st') = hp_sets"
    and c: "length (calls st') = length (calls st) + length hp_sets"
    by (simp_all add: init_best_def)
  from b have "length (trial_results st') = length hp_sets"
    by (metis length_map)
  with a b c show ?thesis by simp
qed

lemma sweep_best_tracks:
  "sweep env d hp_sets st = Inr st' \<Longrightarrow> best_tracks st'"
  unfolding sweep_def using best_tracks_loop best_tracks_init by blast


subsection \<open>Running the concrete instance\<close>

lemma build_compile_Some:
  assumes "cfg ''conv1_num_filters'' = Some c1" "cfg ''conv_filter_size'' = Some fs"
    "cfg ''activation'' = Some act" "cfg ''conv2_num_filters'' = Some c2"
    "cfg ''conv3_num_filters'' = Some c3" "cfg ''conv4_num_filters'' = Some c4"
    "cfg ''conv5_num_filters'' = Some c5" "cfg ''dense1_size'' = Some d1"
    "cfg ''dropout'' = Some dr" "cfg ''learn_rate'' = Some lr"
  shows "build_compile shape cfg =
     Inr (Model
         [Conv2D c1 fs act ''same'' (Some shape),
          MaxPooling2D (2, 2),
          Conv2D c2 fs act ''same'' None,
          Conv2D c3 fs act ''same'' None,
          MaxPooling2D (2, 2),
          Conv2D c4 fs act ''same'' None,
          Conv2D c5 fs act ''same'' None,
          MaxPooling2D (2, 2),
          Flatten,
          Dense d1 act,
          Dropout dr,
          Dense (PInt 10) (PStr ''softmax'')]
         ''categorical_crossentropy''
         (Adam lr)
         [''accuracy''])"
  using assms by (simp add: build_compile_def getattr_def bind_err_def)

lemma demo_build:
  "\<exists>ls. build_compile shape (cfg ++ static_hyper_params ++ demo_hp lr) =
     Inr (Model ls ''categorical_crossentropy'' (Adam lr) [''accuracy'']) \<and> length ls = 12"
  by (subst build_compile_Some[where ?lr=lr])
     (simp_all add: static_hyper_params_def demo_hp_def map_add_def)


lemma run_trial_success:
  assumes "build_compile (image_shape d) (config st ++ static_hyper_params ++ hp) = Inr m"
    and "(config st ++ static_hyper_params ++ hp) ''batch_size'' = Some bs"
    and "(config st ++ static_hyper_params ++ hp) ''num_epochs'' = Some ep"
    and "fit env (calls st) m (FitArgs (X_train d) bs ep (Some (X_valid d))) = Inr h"
    and "h ''val_acc'' = Some accs" and "accs \<noteq> []"
  shows "run_trial env d hp st =
     Inr (last accs,
          st\<lparr>config := (config st ++ static_hyper_params ++ hp)
                            (''num_model_parameters'' \<mapsto> PInt (count_params env m)),
             calls := calls st @ [FitCall m (FitArgs (X_train d) bs ep (Some (X_valid d)))]\<rparr>)"
  using assms by (simp add: run_trial_def Let_def getattr_def final_val_acc_def)

lemma demo_keys:
  "(cfg ++ static_hyper_params ++ demo_hp lr) ''batch_size'' = Some (PInt 16)"
  "(cfg ++ static_hyper_params ++ demo_hp lr) ''num_epochs'' = Some (PInt 2)"
  by (simp_all add: static_hyper_params_def demo_hp_def map_add_def)

lemma demo_trial:
  "run_trial demo_env demo_data (demo_hp (PFloat lr)) st = Inr (lr, demo_next (PFloat lr) st)"
proof -
  obtain ls where m: "build_compile (image_shape demo_data)
      (config st ++ static_hyper_params ++ demo_hp (PFloat lr)) =
     Inr (Model ls ''categorical_crossentropy'' (Adam (PFloat lr)) [''accuracy''])"
    using demo_build by blast
  have f: "fit demo_env (calls st) (Model ls ''categorical_crossentropy'' (Adam (PFloat lr)) [''accuracy''])
        (FitArgs (X_train demo_data) (PInt 16) (PInt 2) (Some (X_valid demo_data)))
      = Inr [''val_acc'' \<mapsto> [lr / 2, lr]]"
    by (simp add: demo_env_def demo_fit_def)
  have "\<exists>s. run_trial demo_env demo_data (demo_hp (PFloat lr)) st = Inr (lr, s)"
    by (subst run_trial_success[OF m demo_keys f, of "[lr / 2, lr]"]) simp_all
  then show ?thesis
    by (auto simp: demo_next_def)
qed

lemma demo_trial_fails:
  "run_trial demo_env demo_data (demo_hp (PInt n)) st =
     Inl (LibraryError ''fit'', demo_failed (PInt n) st)"
proof -
  obtain ls where m: "build_compile (image_shape demo_data)
      (config st ++ static_hyper_params ++ demo_hp (PInt n)) =
     Inr (Model ls ''categorical_crossentropy'' (Adam (PInt n)) [''accuracy''])"
    using demo_build by blast
  have "\<exists>s. run_trial demo_env demo_data (demo_hp (PInt n)) st = Inl (LibraryError ''fit'', s)"
    using m demo_keys[of "config st" "PInt n"]
    by (simp add: run_trial_def Let_def getattr_def demo_env_def demo_fit_def)
  then show ?thesis
    by (auto simp: demo_failed_def)
qed

lemma demo_next_fields:
  "best_valid_acc (demo_next (PFloat lr) st) = best_valid_acc st"
  "best_hp_set (demo_next (PFloat lr) st) = best_hp_set st"
  "best_hp_ind (demo_next (PFloat lr) st) = best_hp_ind st"
  "trial_results (demo_next (PFloat lr) st) = trial_results st"
  "length (calls (demo_next (PFloat lr) st)) = Suc (length (calls st))"
  using run_trial_Inr[OF demo_trial[of lr st]] by auto

lemma demo_failed_fields:
  "best_valid_acc (demo_failed (PInt n) st) = best_valid_acc st"
  "best_hp_set (demo_failed (PInt n) st) = best_hp_set st"
  "best_hp_ind (demo_failed (PInt n) st) = best_hp_ind st"
  "trial_results (demo_failed (PInt n) st) = trial_results st"
  using run_trial_Inl[OF demo_trial_fails[of n st]] by auto

lemmas demo_eval = demo_sweep_def sweep_def sweep_step_def demo_trial demo_trial_fails
  demo_next_fields demo_failed_fields track_best_def init_best_def demo_state_def
  enumerate_eq_zip upt_rec

subsection \<open>The selected trial\<close>

text \<open>
  In a completed sweep a stored index is the index of the trial that the stored set
  and accuracy come from; that accuracy is the maximum, and no earlier trial reaches it.
\<close>

lemma sweep_selected:
  assumes run: "sweep env d hp_sets st = Inr st'" and sel: "best_hp_ind st' = Some k"
  shows "k < length hp_sets \<and>
         best_hp_set st' = Some (hp_sets ! k) \<and>
         trial_valid_acc (trial_results st' ! k) = best_valid_acc st' \<and>
         best_valid_acc st' = Max (trial_valid_acc ` set (trial_results st')) \<and>
         (\<forall>j<k. trial_valid_acc (trial_results st' ! j) < best_valid_acc st')"
proof -
  let ?rs = "trial_results st'"
  have inv: "best_tracks st'" using run by (rule sweep_best_tracks)
  from sweep_results[OF run] have ind: "map trial_ind ?rs = [0..<length hp_sets]"
    and hps: "map trial_hp_set ?rs = hp_sets" and len: "length ?rs = length hp_sets"
    by simp_all
  from inv have le: "\<forall>r \<in> set ?rs. trial_valid_acc r \<le> best_valid_acc st'"
    by (simp add: best_tracks_def)
  from inv sel obtain n hp where n: "n < length ?rs"
    "?rs ! n = TrialResult k hp (best_valid_acc st')" "best_hp_set st' = Some hp"
    "\<forall>j<n. trial_valid_acc (?rs ! j) < best_valid_acc st'"
    by (auto simp: best_tracks_def)
  have "trial_ind (?rs ! n) = n"
    using ind n(1) len by (metis add_0 nth_map nth_upt)
  with n(2) have kn: "k = n" by simp
  have "trial_hp_set (?rs ! n) = hp_sets ! n"
    using hps n(1) by (metis nth_map)
  with n(2) have hp: "hp = hp_sets ! n" by simp
  have "best_valid_acc st' \<in> trial_valid_acc ` set ?rs"
    using n(1,2) by (metis image_eqI nth_mem trial_result.sel(3))
  then have M: "Max (trial_valid_acc ` set ?rs) = best_valid_acc st'"
    using le by (intro Max_eqI) auto
  have acc: "trial_valid_acc (?rs ! n) = best_valid_acc st'"
    using n(2) by simp
  show ?thesis
    using n(1,3,4) kn hp M acc len by simp
qed

subsection \<open>The best trial\<close>

text \<open>
  C1 (amended). For every sweep that completes and in which some trial records an
  accuracy above \<open>0.0\<close>, the final values of \<open>best_valid_acc\<close>, \<open>best_hp_set\<close> and
  \<open>best_hp_ind\<close> are the accuracy, the hyperparameter set and the index of one trial
  result, and that accuracy is the maximum over all trial results.
\<close>

theorem sweep_best_is_max:
  assumes run: "sweep env d hp_sets st = Inr st'"
    and pos: "\<exists>r \<in> set (trial_results st'). 0 < trial_valid_acc r"
  shows "\<exists>k<length hp_sets.
           trial_results st' ! k = TrialResult k (hp_sets ! k) (best_valid_acc st') \<and>
           best_hp_set st' = Some (hp_sets ! k) \<and>
           best_hp_ind st' = Some k \<and>
           best_valid_acc st' = Max (trial_valid_acc ` set (trial_results st'))"
proof -
  let ?rs = "trial_results st'"
  have inv: "best_tracks st'" using run by (rule sweep_best_tracks)
  from sweep_results[OF run] have ind: "map trial_ind ?rs = [0..<length hp_sets]"
    and hps: "map trial_hp_set ?rs = hp_sets" and len: "length ?rs = length hp_sets"
    by simp_all
  from inv have le: "\<forall>r \<in> set ?rs. trial_valid_acc r \<le> best_valid_acc st'"
    by (simp add: best_tracks_def)
  with pos have "0 < best_valid_acc st'" by force
  with inv obtain i where i: "best_hp_ind st' = Some i"
    by (cases "best_hp_ind st'") (auto simp: best_tracks_def)
  with inv obtain k hp where k: "k < length ?rs"
    "?rs ! k = TrialResult i hp (best_valid_acc st')" "best_hp_set st' = Some hp"
    by (auto simp: best_tracks_def)
  have "trial_ind (?rs ! k) = k"
    using ind k(1) len by (metis add_0 nth_map nth_upt)
  with k(2) have ik: "i = k" by simp
  have "trial_hp_set (?rs ! k) = hp_sets ! k"
    using hps k(1) by (metis nth_map)
  with k(2) have hp: "hp = hp_sets ! k" by simp
  have "best_valid_acc st' \<in> trial_valid_acc ` set ?rs"
    using k(1,2) by (metis image_eqI nth_mem trial_result.sel(3))
  then have "Max (trial_valid_acc ` set ?rs) = best_valid_acc st'"
    using le by (intro Max_eqI) auto
  then show ?thesis
    using k i ik hp len by auto
qed

text \<open>
  Two trials with accuracies \<open>0.1\<close> and \<open>0.3\<close>: the second one is kept.
\<close>

theorem sweep_best_is_max_witness:
  "demo_sweep [demo_hp (PFloat (1/10)), demo_hp (PFloat (3/10))]
     = Inr (projr (demo_sweep [demo_hp (PFloat (1/10)), demo_hp (PFloat (3/10))])) \<and>
   0 < trial_valid_acc (trial_results (projr (demo_sweep [demo_hp (PFloat (1/10)), demo_hp (PFloat (3/10))])) ! 1) \<and>
   best_hp_ind (projr (demo_sweep [demo_hp (PFloat (1/10)), demo_hp (PFloat (3/10))])) = Some 1 \<and>
   best_valid_acc (projr (demo_sweep [demo_hp (PFloat (1/10)), demo_hp (PFloat (3/10))])) = 3 / 10"
proof -
  let ?hps = "[demo_hp (PFloat (1/10)), demo_hp (PFloat (3/10))]"
  have run: "sweep demo_env demo_data ?hps demo_state = Inr (projr (demo_sweep ?hps))"
    by (simp add: demo_eval)
  have pos: "\<exists>r \<in> set (trial_results (projr (demo_sweep ?hps))). 0 < trial_valid_acc r"
    by (simp add: demo_eval)
  show ?thesis
    using sweep_best_is_max[OF run pos] by (simp add: demo_eval)
qed

text \<open>
  One completed trial whose recorded accuracy is \<open>0.0\<close>: it is the trial result with
  the maximum accuracy, yet the three variables keep their initial values, so neither
  the stored set nor the stored index is that of the trial.
\<close>

theorem sweep_best_is_max_counterexample:
  "demo_sweep [demo_hp (PFloat 0)] = Inr (projr (demo_sweep [demo_hp (PFloat 0)])) \<and>
   trial_results (projr (demo_sweep [demo_hp (PFloat 0)])) = [TrialResult 0 (demo_hp (PFloat 0)) 0] \<and>
   best_valid_acc (projr (demo_sweep [demo_hp (PFloat 0)])) = 0 \<and>
   best_hp_set (projr (demo_sweep [demo_hp (PFloat 0)])) \<noteq> Some (demo_hp (PFloat 0)) \<and>
   best_hp_ind (projr (demo_sweep [demo_hp (PFloat 0)])) \<noteq> Some 0"
  by (simp add: demo_eval)

text \<open>
  C4 (amended). When the maximum validation accuracy of a completed sweep is above
  \<open>0.0\<close>, a trial is selected, its index \<open>k\<close> is that of a trial whose accuracy is the
  maximum over all trials, the stored set is the \<open>k\<close>-th sampled set, and every trial
  that attains the same maximum has an index of at least \<open>k\<close>: among tied trials the
  earliest one is selected.
\<close>

theorem tie_selects_earliest_index:
  assumes run: "sweep env d hp_sets st = Inr st'"
    and pos: "\<exists>r \<in> set (trial_results st'). 0 < trial_valid_acc r"
  shows "\<exists>k<length hp_sets.
           best_hp_ind st' = Some k \<and>
           best_hp_set st' = Some (hp_sets ! k) \<and>
           trial_valid_acc (trial_results st' ! k) = Max (trial_valid_acc ` set (trial_results st')) \<and>
           (\<forall>j<length hp_sets.
              trial_valid_acc (trial_results st' ! j) = Max (trial_valid_acc ` set (trial_results st'))
              \<longrightarrow> k \<le> j)"
proof -
  let ?rs = "trial_results st'"
  let ?M = "Max (trial_valid_acc ` set ?rs)"
  have inv: "best_tracks st'" using run by (rule sweep_best_tracks)
  from inv have le: "\<forall>r \<in> set ?rs. trial_valid_acc r \<le> best_valid_acc st'"
    by (simp add: best_tracks_def)
  with pos have "0 < best_valid_acc st'" by force
  with inv obtain k where sel: "best_hp_ind st' = Some k"
    by (cases "best_hp_ind st'") (auto simp: best_tracks_def)
  from sweep_selected[OF run sel] have
    a: "k < length hp_sets" "best_hp_set st' = Some (hp_sets ! k)"
       "trial_valid_acc (?rs ! k) = best_valid_acc st'" "best_valid_acc st' = ?M" and
    b: "\<forall>j<k. trial_valid_acc (?rs ! j) < best_valid_acc st'"
    by blast+
  have "k \<le> j" if "trial_valid_acc (?rs ! j) = ?M" for j
    using that b a(4) by (metis less_irrefl not_le_imp_less)
  with a sel show ?thesis by simp
qed

text \<open>
  Three trials with accuracies \<open>0.1\<close>, \<open>0.3\<close> and \<open>0.3\<close>: the first of the two tied
  trials is selected.
\<close>

theorem tie_selects_earliest_index_witness:
  "demo_sweep [demo_hp (PFloat (1/10)), demo_hp (PFloat (3/10)), demo_hp (PFloat (3/10))]
     = Inr (projr (demo_sweep [demo_hp (PFloat (1/10)), demo_hp (PFloat (3/10)), demo_hp (PFloat (3/10))])) \<and>
   map trial_valid_acc (trial_results (projr (demo_sweep
       [demo_hp (PFloat (1/10)), demo_hp (PFloat (3/10)), demo_hp (PFloat (3/10))])))
     = [1 / 10, 3 / 10, 3 / 10] \<and>
   best_hp_ind (projr (demo_sweep
       [demo_hp (PFloat (1/10)), demo_hp (PFloat (3/10)), demo_hp (PFloat (3/10))])) = Some 1"
proof -
  let ?hps = "[demo_hp (PFloat (1/10)), demo_hp (PFloat (3/10)), demo_hp (PFloat (3/10))]"
  have run: "sweep demo_env demo_data ?hps demo_state = Inr (projr (demo_sweep ?hps))"
    by (simp add: demo_eval)
  have pos: "\<exists>r \<in> set (trial_results (projr (demo_sweep ?hps))). 0 < trial_valid_acc r"
    by (simp add: demo_eval)
  show ?thesis
    using tie_selects_earliest_index[OF run pos] by (simp add: demo_eval)
qed

text \<open>
  Two completed trials that both record \<open>0.0\<close>: they attain the same maximum, and
  neither the first nor the second is selected, the stored index stays \<open>None\<close>.
\<close>

theorem tie_selects_earliest_index_counterexample:
  "demo_sweep [demo_hp (PFloat 0), demo_hp (PFloat 0)]
     = Inr (projr (demo_sweep [demo_hp (PFloat 0), demo_hp (PFloat 0)])) \<and>
   map trial_valid_acc (trial_results (projr (demo_sweep [demo_hp (PFloat 0), demo_hp (PFloat 0)])))
     = [0, 0] \<and>
   best_hp_ind (projr (demo_sweep [demo_hp (PFloat 0), demo_hp (PFloat 0)])) = None \<and>
   best_hp_ind (projr (demo_sweep [demo_hp (PFloat 0), demo_hp (PFloat 0)])) \<noteq> Some 0 \<and>
   best_hp_set (projr (demo_sweep [demo_hp (PFloat 0), demo_hp (PFloat 0)])) = None"
  by (simp add: demo_eval)

text \<open>
  C9. If a sweep completes and no trial records an accuracy above \<open>0.0\<close>, the stored
  set and the stored index are still \<open>None\<close> and the best accuracy is still \<open>0.0\<close>; the
  retraining cell is then run on \<open>None\<close>, where its first use of the set,
  \<open>print_dict(best_hp_set)\<close>, raises, and the run ends there.
\<close>

theorem no_improvement_leaves_none:
  assumes run: "sweep env d hp_sets st = Inr st'"
    and none: "\<forall>r \<in> set (trial_results st'). trial_valid_acc r \<le> 0"
  shows "best_hp_set st' = None \<and> best_hp_ind st' = None \<and> best_valid_acc st' = 0 \<and>
         retrain env d st' = Inl (AttributeError ''items'', st') \<and>
         notebook env d hp_sets st = Inl (AttributeError ''items'', st')"
proof -
  have inv: "best_tracks st'" using run by (rule sweep_best_tracks)
  have ind: "best_hp_ind st' = None"
  proof (cases "best_hp_ind st'")
    case None
    then show ?thesis .
  next
    case (Some i)
    with inv obtain k where "k < length (trial_results st')"
      "trial_valid_acc (trial_results st' ! k) = best_valid_acc st'" "0 < best_valid_acc st'"
      by (auto simp: best_tracks_def)
    with none show ?thesis
      by (metis not_less nth_mem)
  qed
  with inv have set: "best_hp_set st' = None" and acc: "best_valid_acc st' = 0"
    by (simp_all add: best_tracks_def)
  from set have re: "retrain env d st' = Inl (AttributeError ''items'', st')"
    by (simp add: retrain_def)
  with run have "notebook env d hp_sets st = Inl (AttributeError ''items'', st')"
    by (simp add: notebook_def)
  with ind set acc re show ?thesis by simp
qed

text \<open>
  Two trials that both record \<open>0.0\<close>.
\<close>

theorem no_improvement_leaves_none_witness:
  "demo_sweep [demo_hp (PFloat 0), demo_hp (PFloat 0)]
     = Inr (projr (demo_sweep [demo_hp (PFloat 0), demo_hp (PFloat 0)])) \<and>
   map trial_valid_acc (trial_results (projr (demo_sweep [demo_hp (PFloat 0), demo_hp (PFloat 0)])))
     = [0, 0] \<and>
   best_hp_set (projr (demo_sweep [demo_hp (PFloat 0), demo_hp (PFloat 0)])) = None \<and>
   isl (retrain demo_env demo_data (projr (demo_sweep [demo_hp (PFloat 0), demo_hp (PFloat 0)])))"
proof -
  let ?hps = "[demo_hp (PFloat 0), demo_hp (PFloat 0)]"
  have run: "sweep demo_env demo_data ?hps demo_state = Inr (projr (demo_sweep ?hps))"
    by (simp add: demo_eval)
  have none: "\<forall>r \<in> set (trial_results (projr (demo_sweep ?hps))). trial_valid_acc r \<le> 0"
    by (simp add: demo_eval)
  show ?thesis
    using no_improvement_leaves_none[OF run none] by (simp add: demo_eval)
qed

subsection \<open>The best accuracy over time\<close>

text \<open>
  The states of \<open>sweep_trace\<close> are linked by the iterations of the loop, and the last
  one is the state in which a completed loop ends.
\<close>

lemma sweep_trace_step:
  "k < length (sweep_trace env d xs st) \<Longrightarrow>
     k < length xs \<and>
     sweep_step env d (xs ! k) ((st # sweep_trace env d xs st) ! k) = Inr (sweep_trace env d xs st ! k)"
proof (induction xs arbitrary: st k)
  case Nil
  then show ?case by simp
next
  case (Cons ih xs)
  from Cons.prems obtain s1 where s1: "sweep_step env d ih st = Inr s1"
    by (cases "sweep_step env d ih st") auto
  then have tr: "sweep_trace env d (ih # xs) st = s1 # sweep_trace env d xs s1"
    by simp
  show ?case
  proof (cases k)
    case 0
    with s1 tr show ?thesis by simp
  next
    case (Suc n)
    with Cons.prems tr have "n < length (sweep_trace env d xs s1)" by simp
    from Cons.IH[OF this] show ?thesis
      using Suc tr by simp
  qed
qed

lemma sweep_trace_complete:
  "sweep_loop env d xs st = Inr st' \<Longrightarrow>
     length (sweep_trace env d xs st) = length xs \<and> last (st # sweep_trace env d xs st) = st'"
proof (induction xs arbitrary: st)
  case Nil
  then show ?case by simp
next
  case (Cons ih xs)
  from Cons.prems obtain s1 where s1: "sweep_step env d ih st = Inr s1"
    and rest: "sweep_loop env d xs s1 = Inr st'"
    by (auto split: sum.splits)
  from Cons.IH[OF rest] s1 show ?case by simp
qed

text \<open>
  C5. The sweep has one record of the best trial, the three \<open>best\<close> variables of the
  state. Along the states at the end of each iteration, starting with the state before
  the first one, \<open>best_valid_acc\<close> never decreases. In every iteration the three
  variables are left as they are unless the accuracy of the trial is strictly above the
  current best; \<open>best_valid_acc\<close> then becomes that accuracy, so every change of it is a
  strict increase. The last of these states is the state in which a completed loop ends.
\<close>

theorem best_valid_acc_only_improves:
  "sorted (map best_valid_acc (st # sweep_trace env d xs st)) \<and>
   (\<forall>k<length (sweep_trace env d xs st).
      \<exists>acc. trial_results (sweep_trace env d xs st ! k) =
               trial_results ((st # sweep_trace env d xs st) ! k) @
                 [TrialResult (fst (xs ! k)) (snd (xs ! k)) acc] \<and>
        (best_valid_acc ((st # sweep_trace env d xs st) ! k) < acc \<longrightarrow>
           best_valid_acc (sweep_trace env d xs st ! k) = acc) \<and>
        (\<not> best_valid_acc ((st # sweep_trace env d xs st) ! k) < acc \<longrightarrow>
           best_valid_acc (sweep_trace env d xs st ! k) =
             best_valid_acc ((st # sweep_trace env d xs st) ! k) \<and>
           best_hp_set (sweep_trace env d xs st ! k) =
             best_hp_set ((st # sweep_trace env d xs st) ! k) \<and>
           best_hp_ind (sweep_trace env d xs st ! k) =
             best_hp_ind ((st # sweep_trace env d xs st) ! k)) \<and>
        (best_valid_acc (sweep_trace env d xs st ! k) \<noteq>
           best_valid_acc ((st # sweep_trace env d xs st) ! k) \<longrightarrow>
           best_valid_acc ((st # sweep_trace env d xs st) ! k) < acc \<and>
           best_valid_acc ((st # sweep_trace env d xs st) ! k) <
             best_valid_acc (sweep_trace env d xs st ! k))) \<and>
   (\<forall>st'. sweep_loop env d xs st = Inr st' \<longrightarrow>
      length (sweep_trace env d xs st) = length xs \<and>
      last (st # sweep_trace env d xs st) = st')"
proof -
  let ?tr = "sweep_trace env d xs st"
  have step: "\<exists>acc. trial_results (?tr ! k) =
               trial_results ((st # ?tr) ! k) @ [TrialResult (fst (xs ! k)) (snd (xs ! k)) acc] \<and>
        (if best_valid_acc ((st # ?tr) ! k) < acc
         then best_valid_acc (?tr ! k) = acc
         else best_valid_acc (?tr ! k) = best_valid_acc ((st # ?tr) ! k) \<and>
              best_hp_set (?tr ! k) = best_hp_set ((st # ?tr) ! k) \<and>
              best_hp_ind (?tr ! k) = best_hp_ind ((st # ?tr) ! k))"
    if "k < length ?tr" for k
  proof -
    from sweep_trace_step[OF that]
    have "sweep_step env d (xs ! k) ((st # ?tr) ! k) = Inr (?tr ! k)" by simp
    from sweep_step_Inr[OF this] show ?thesis
      by (auto split: if_splits)
  qed
  have mono: "best_valid_acc ((st # ?tr) ! k) \<le> best_valid_acc ((st # ?tr) ! Suc k)"
    if "k < length ?tr" for k
    using step[OF that] by (auto split: if_splits)
  have "sorted (map best_valid_acc (st # ?tr))"
    unfolding sorted_iff_nth_Suc
  proof (intro allI impI)
    fix i assume "Suc i < length (map best_valid_acc (st # ?tr))"
    then have i: "i < length ?tr" by simp
    have "map best_valid_acc (st # ?tr) ! i = best_valid_acc ((st # ?tr) ! i)"
      using i by (intro nth_map) simp
    moreover have "map best_valid_acc (st # ?tr) ! Suc i = best_valid_acc ((st # ?tr) ! Suc i)"
      using i by (intro nth_map) simp
    ultimately show "map best_valid_acc (st # ?tr) ! i \<le> map best_valid_acc (st # ?tr) ! Suc i"
      using mono[OF i] by simp
  qed
  moreover have "\<forall>k<length ?tr. \<exists>acc. trial_results (?tr ! k) =
               trial_results ((st # ?tr) ! k) @ [TrialResult (fst (xs ! k)) (snd (xs ! k)) acc] \<and>
        (best_valid_acc ((st # ?tr) ! k) < acc \<longrightarrow> best_valid_acc (?tr ! k) = acc) \<and>
        (\<not> best_valid_acc ((st # ?tr) ! k) < acc \<longrightarrow>
           best_valid_acc (?tr ! k) = best_valid_acc ((st # ?tr) ! k) \<and>
           best_hp_set (?tr ! k) = best_hp_set ((st # ?tr) ! k) \<and>
           best_hp_ind (?tr ! k) = best_hp_ind ((st # ?tr) ! k)) \<and>
        (best_valid_acc (?tr ! k) \<noteq> best_valid_acc ((st # ?tr) ! k) \<longrightarrow>
           best_valid_acc ((st # ?tr) ! k) < acc \<and>
           best_valid_acc ((st # ?tr) ! k) < best_valid_acc (?tr ! k))"
  proof (intro allI impI)
    fix k assume "k < length ?tr"
    from step[OF this] obtain acc where
      a: "trial_results (?tr ! k) =
               trial_results ((st # ?tr) ! k) @ [TrialResult (fst (xs ! k)) (snd (xs ! k)) acc]"
      and b: "if best_valid_acc ((st # ?tr) ! k) < acc
         then best_valid_acc (?tr ! k) = acc
         else best_valid_acc (?tr ! k) = best_valid_acc ((st # ?tr) ! k) \<and>
              best_hp_set (?tr ! k) = best_hp_set ((st # ?tr) ! k) \<and>
              best_hp_ind (?tr ! k) = best_hp_ind ((st # ?tr) ! k)"
      by blast
    show "\<exists>acc. trial_results (?tr ! k) =
               trial_results ((st # ?tr) ! k) @ [TrialResult (fst (xs ! k)) (snd (xs ! k)) acc] \<and>
        (best_valid_acc ((st # ?tr) ! k) < acc \<longrightarrow> best_valid_acc (?tr ! k) = acc) \<and>
        (\<not> best_valid_acc ((st # ?tr) ! k) < acc \<longrightarrow>
           best_valid_acc (?tr ! k) = best_valid_acc ((st # ?tr) ! k) \<and>
           best_hp_set (?tr ! k) = best_hp_set ((st # ?tr) ! k) \<and>
           best_hp_ind (?tr ! k) = best_hp_ind ((st # ?tr) ! k)) \<and>
        (best_valid_acc (?tr ! k) \<noteq> best_valid_acc ((st # ?tr) ! k) \<longrightarrow>
           best_valid_acc ((st # ?tr) ! k) < acc \<and>
           best_valid_acc ((st # ?tr) ! k) < best_valid_acc (?tr ! k))"
      using a b by (intro exI[of _ acc]) (auto split: if_splits)
  qed
  moreover have "\<forall>st'. sweep_loop env d xs st = Inr st' \<longrightarrow>
      length ?tr = length xs \<and> last (st # ?tr) = st'"
    using sweep_trace_complete by blast
  ultimately show ?thesis by blast
qed

lemma demo_trace3:
  "map best_valid_acc
     (init_best demo_state #
      sweep_trace demo_env demo_data
        (enumerate 0 [demo_hp (PFloat (1/10)), demo_hp (PFloat (3/10)), demo_hp (PFloat (2/10))])
        (init_best demo_state))
    = [0, 1 / 10, 3 / 10, 3 / 10]"
  by (simp add: demo_eval)

text \<open>
  Accuracies \<open>0.1\<close>, \<open>0.3\<close>, \<open>0.2\<close>: the best accuracy runs through \<open>0, 0.1, 0.3, 0.3\<close>.
\<close>

theorem best_valid_acc_only_improves_witness:
  "map best_valid_acc
     (init_best demo_state #
      sweep_trace demo_env demo_data
        (enumerate 0 [demo_hp (PFloat (1/10)), demo_hp (PFloat (3/10)), demo_hp (PFloat (2/10))])
        (init_best demo_state))
    = [0, 1 / 10, 3 / 10, 3 / 10] \<and>
   sorted (map best_valid_acc
     (init_best demo_state #
      sweep_trace demo_env demo_data
        (enumerate 0 [demo_hp (PFloat (1/10)), demo_hp (PFloat (3/10)), demo_hp (PFloat (2/10))])
        (init_best demo_state)))"
  using best_valid_acc_only_improves[of "init_best demo_state" demo_env demo_data
      "enumerate 0 [demo_hp (PFloat (1/10)), demo_hp (PFloat (3/10)), demo_hp (PFloat (2/10))]"]
    demo_trace3
  by blast

subsection \<open>What a trial records, and what a failing trial does\<close>

text \<open>
  What one completed iteration does to the outside world and to the trial results.
\<close>

lemma sweep_step_trial:
  assumes "sweep_step env d ih st = Inr s1"
  shows "\<exists>m bs ep h accs.
           calls s1 = calls st @ [FitCall m (FitArgs (X_train d) bs ep (Some (X_valid d)))] \<and>
           (static_hyper_params ++ snd ih) ''num_epochs'' = Some ep \<and>
           fit env (calls st) m (FitArgs (X_train d) bs ep (Some (X_valid d))) = Inr h \<and>
           h ''val_acc'' = Some accs \<and> accs \<noteq> [] \<and>
           trial_results s1 = trial_results st @ [TrialResult (fst ih) (snd ih) (last accs)]"
proof -
  from sweep_step_Inr[OF assms] obtain acc s where
    rt: "run_trial env d (snd ih) st = Inr (acc, s)" and
    rs: "trial_results s1 = trial_results st @ [TrialResult (fst ih) (snd ih) acc]" and
    cs: "calls s1 = calls s"
    by blast
  from run_trial_Inr[OF rt] obtain m bs ep h accs where
    ep: "getattr ((config st ++ static_hyper_params ++ snd ih)
            (''num_model_parameters'' \<mapsto> PInt (count_params env m))) ''num_epochs'' = Inr ep" and
    f: "fit env (calls st) m (FitArgs (X_train d) bs ep (Some (X_valid d))) = Inr h" and
    h: "h ''val_acc'' = Some accs" "accs \<noteq> []" "acc = last accs" and
    s: "calls s = calls st @ [FitCall m (FitArgs (X_train d) bs ep (Some (X_valid d)))]"
    by auto
  from ep have "(static_hyper_params ++ snd ih) ''num_epochs'' = Some ep"
    by (auto simp: getattr_def static_hyper_params_def map_add_def split: option.splits)
  with f h s rs cs show ?thesis by auto
qed

lemma sweep_loop_extends:
  "sweep_loop env d xs st = Inr st' \<Longrightarrow>
     \<exists>cs rs. calls st' = calls st @ cs \<and> trial_results st' = trial_results st @ rs"
proof (induction xs arbitrary: st)
  case Nil
  then show ?case by simp
next
  case (Cons ih xs)
  from Cons.prems obtain s1 where s1: "sweep_step env d ih st = Inr s1"
    and rest: "sweep_loop env d xs s1 = Inr st'"
    by (auto split: sum.splits)
  from sweep_step_trial[OF s1] Cons.IH[OF rest] show ?case
    by (metis append.assoc)
qed

lemma sweep_loop_trial:
  "sweep_loop env d xs st = Inr st' \<Longrightarrow> k < length xs \<Longrightarrow>
     \<exists>m bs ep h accs.
        calls st' ! (length (calls st) + k) =
          FitCall m (FitArgs (X_train d) bs ep (Some (X_valid d))) \<and>
        (static_hyper_params ++ snd (xs ! k)) ''num_epochs'' = Some ep \<and>
        fit env (take (length (calls st) + k) (calls st')) m
          (FitArgs (X_train d) bs ep (Some (X_valid d))) = Inr h \<and>
        h ''val_acc'' = Some accs \<and> accs \<noteq> [] \<and>
        trial_results st' ! (length (trial_results st) + k) =
          TrialResult (fst (xs ! k)) (snd (xs ! k)) (last accs)"
proof (induction xs arbitrary: st k)
  case Nil
  then show ?case by simp
next
  case (Cons ih xs)
  from Cons.prems(1) obtain s1 where s1: "sweep_step env d ih st = Inr s1"
    and rest: "sweep_loop env d xs s1 = Inr st'"
    by (auto split: sum.splits)
  from sweep_step_trial[OF s1] obtain m bs ep h accs where
    c1: "calls s1 = calls st @ [FitCall m (FitArgs (X_train d) bs ep (Some (X_valid d)))]" and
    ep: "(static_hyper_params ++ snd ih) ''num_epochs'' = Some ep" and
    f: "fit env (calls st) m (FitArgs (X_train d) bs ep (Some (X_valid d))) = Inr h" and
    h: "h ''val_acc'' = Some accs" "accs \<noteq> []" and
    r1: "trial_results s1 = trial_results st @ [TrialResult (fst ih) (snd ih) (last accs)]"
    by (elim exE conjE) (rule that)
  from sweep_loop_extends[OF rest] obtain cs rs where
    ext: "calls st' = calls s1 @ cs" "trial_results st' = trial_results s1 @ rs"
    by blast
  show ?case
  proof (cases k)
    case 0
    have "calls st' ! length (calls st) = FitCall m (FitArgs (X_train d) bs ep (Some (X_valid d)))"
      using ext(1) c1 by (simp add: nth_append)
    moreover have "take (length (calls st)) (calls st') = calls st"
      using ext(1) c1 by simp
    moreover have "trial_results st' ! length (trial_results st) =
        TrialResult (fst ih) (snd ih) (last accs)"
      using ext(2) r1 by (simp add: nth_append)
    ultimately show ?thesis
      using 0 ep f h by auto
  next
    case (Suc n)
    with Cons.prems(2) have n: "n < length xs" by simp
    have l1: "length (calls s1) + n = length (calls st) + k"
      and l2: "length (trial_results s1) + n = length (trial_results st) + k"
      using c1 r1 Suc by simp_all
    from Cons.IH[OF rest n] show ?thesis
      unfolding l1 l2 using Suc by simp
  qed
qed

text \<open>
  C7. In a completed sweep, the \<open>k\<close>-th library call of the sweep is the \<open>fit\<close> of trial
  \<open>k\<close>: it trains on \<open>X_train\<close> with \<open>(X_valid, y_valid)\<close> as validation data, for the number
  of epochs that \<open>static_hyper_params\<close> updated with the trial's set gives, which is the
  static \<open>2\<close> for every set that has no entry \<open>num_epochs\<close> of its own. The call
  returned a history whose \<open>val_acc\<close> series is not empty, and the accuracy recorded for
  trial \<open>k\<close> is the last entry of that series.
\<close>

theorem recorded_accuracy_is_final_epoch:
  assumes run: "sweep env d hp_sets st = Inr st'" and k: "k < length hp_sets"
  shows "\<exists>m bs ep h accs.
           calls st' ! (length (calls st) + k) =
             FitCall m (FitArgs (X_train d) bs ep (Some (X_valid d))) \<and>
           (static_hyper_params ++ (hp_sets ! k)) ''num_epochs'' = Some ep \<and>
           (''num_epochs'' \<notin> dom (hp_sets ! k) \<longrightarrow> ep = PInt 2) \<and>
           fit env (take (length (calls st) + k) (calls st')) m
             (FitArgs (X_train d) bs ep (Some (X_valid d))) = Inr h \<and>
           h ''val_acc'' = Some accs \<and> accs \<noteq> [] \<and>
           trial_results st' ! k = TrialResult k (hp_sets ! k) (last accs)"
proof -
  from run have loop: "sweep_loop env d (enumerate 0 hp_sets) (init_best st) = Inr st'"
    by (simp add: sweep_def)
  from k have k': "k < length (enumerate 0 hp_sets)" by simp
  have nth: "enumerate 0 hp_sets ! k = (k, hp_sets ! k)"
    using k by (simp add: nth_enumerate_eq)
  have ex: "\<exists>m bs ep h accs.
           calls st' ! (length (calls st) + k) =
             FitCall m (FitArgs (X_train d) bs ep (Some (X_valid d))) \<and>
           (static_hyper_params ++ (hp_sets ! k)) ''num_epochs'' = Some ep \<and>
           fit env (take (length (calls st) + k) (calls st')) m
             (FitArgs (X_train d) bs ep (Some (X_valid d))) = Inr h \<and>
           h ''val_acc'' = Some accs \<and> accs \<noteq> [] \<and>
           trial_results st' ! k = TrialResult k (hp_sets ! k) (last accs)"
    using sweep_loop_trial[OF loop k'] by (simp add: nth init_best_def)
  then obtain m bs ep h accs where
    a: "calls st' ! (length (calls st) + k) =
          FitCall m (FitArgs (X_train d) bs ep (Some (X_valid d)))" and
    b: "(static_hyper_params ++ (hp_sets ! k)) ''num_epochs'' = Some ep" and
    c: "fit env (take (length (calls st) + k) (calls st')) m
          (FitArgs (X_train d) bs ep (Some (X_valid d))) = Inr h" and
    e: "h ''val_acc'' = Some accs" "accs \<noteq> []" and
    g: "trial_results st' ! k = TrialResult k (hp_sets ! k) (last accs)"
    by (elim exE conjE) (rule that)
  from b have fixed: "''num_epochs'' \<notin> dom (hp_sets ! k) \<longrightarrow> ep = PInt 2"
    by (auto simp: static_hyper_params_def map_add_def dom_def split: option.splits)
  show ?thesis
    by (rule exI[of _ m], rule exI[of _ bs], rule exI[of _ ep], rule exI[of _ h],
        rule exI[of _ accs])
       (simp add: a b c e g fixed)
qed

text \<open>
  The second of two trials of the instance records \<open>0.3\<close>, the last entry of its series.
\<close>

theorem recorded_accuracy_is_final_epoch_witness:
  "demo_sweep [demo_hp (PFloat (1/10)), demo_hp (PFloat (3/10))]
     = Inr (projr (demo_sweep [demo_hp (PFloat (1/10)), demo_hp (PFloat (3/10))])) \<and>
   (1::nat) < length [demo_hp (PFloat (1/10)), demo_hp (PFloat (3/10))] \<and>
   trial_valid_acc (trial_results
      (projr (demo_sweep [demo_hp (PFloat (1/10)), demo_hp (PFloat (3/10))])) ! 1) = 3 / 10"
proof -
  let ?hps = "[demo_hp (PFloat (1/10)), demo_hp (PFloat (3/10))]"
  have run: "sweep demo_env demo_data ?hps demo_state = Inr (projr (demo_sweep ?hps))"
    by (simp add: demo_eval)
  have k: "(1::nat) < length ?hps" by simp
  show ?thesis
    using recorded_accuracy_is_final_epoch[OF run k] by (simp add: demo_eval)
qed

text \<open>
  C8. Let the trials of the sets \<open>pre\<close> complete, and let the next trial raise \<open>e\<close>,
  in model construction, in \<open>fit\<close> or in reading the history. Then the sweep over
  \<open>pre\<close>, that set and any further sets \<open>rest\<close> ends with \<open>e\<close> in the state of the raise:
  the result does not depend on \<open>rest\<close>, no trial result is added for the failed trial
  or for a later one, the library is called at most once for the failed trial, the
  \<open>best\<close> variables are as the completed trials left them, and the run of the notebook
  ends with \<open>e\<close> without a report.
\<close>

theorem failed_trial_aborts_sweep:
  assumes pre: "sweep env d pre st = Inr s" and fail: "run_trial env d hp s = Inl (e, s')"
  shows "sweep env d (pre @ hp # rest) st = Inl (e, s') \<and>
         notebook env d (pre @ hp # rest) st = Inl (e, s') \<and>
         trial_results s' = trial_results s \<and>
         length (trial_results s') = length pre \<and>
         best_valid_acc s' = best_valid_acc s \<and>
         best_hp_set s' = best_hp_set s \<and>
         best_hp_ind s' = best_hp_ind s \<and>
         length (calls s') \<le> length (calls st) + length pre + 1"
proof -
  have en: "enumerate 0 (pre @ hp # rest) =
      enumerate 0 pre @ (length pre, hp) # enumerate (Suc (length pre)) rest"
    by (simp add: enumerate_append_eq)
  from pre have loop: "sweep_loop env d (enumerate 0 pre) (init_best st) = Inr s"
    by (simp add: sweep_def)
  from fail have "sweep_step env d (length pre, hp) s = Inl (e, s')"
    by (simp add: sweep_step_def)
  with loop have ab: "sweep env d (pre @ hp # rest) st = Inl (e, s')"
    by (simp add: sweep_def en sweep_loop_append)
  then have nb: "notebook env d (pre @ hp # rest) st = Inl (e, s')"
    by (simp add: notebook_def)
  from sweep_results[OF pre] have len: "length (trial_results s) = length pre"
    "length (calls s) = length (calls st) + length pre"
    by simp_all
  from run_trial_Inl[OF fail] len ab nb show ?thesis
    by auto
qed

text \<open>
  One completed trial, then a trial whose training raises, then a set that is never
  tried.
\<close>

theorem failed_trial_aborts_sweep_witness:
  "sweep demo_env demo_data [demo_hp (PFloat (1/10))] demo_state
     = Inr (projr (demo_sweep [demo_hp (PFloat (1/10))])) \<and>
   run_trial demo_env demo_data (demo_hp (PInt 0)) (projr (demo_sweep [demo_hp (PFloat (1/10))]))
     = Inl (LibraryError ''fit'',
            demo_failed (PInt 0) (projr (demo_sweep [demo_hp (PFloat (1/10))]))) \<and>
   isl (notebook demo_env demo_data
          ([demo_hp (PFloat (1/10))] @ demo_hp (PInt 0) # [demo_hp (PFloat (3/10))]) demo_state) \<and>
   length (trial_results (demo_failed (PInt 0) (projr (demo_sweep [demo_hp (PFloat (1/10))])))) = 1"
proof -
  have pre: "sweep demo_env demo_data [demo_hp (PFloat (1/10))] demo_state
     = Inr (projr (demo_sweep [demo_hp (PFloat (1/10))]))"
    by (simp add: demo_eval)
  have fail: "run_trial demo_env demo_data (demo_hp (PInt 0))
       (projr (demo_sweep [demo_hp (PFloat (1/10))]))
     = Inl (LibraryError ''fit'',
            demo_failed (PInt 0) (projr (demo_sweep [demo_hp (PFloat (1/10))])))"
    by (rule demo_trial_fails)
  show ?thesis
    using failed_trial_aborts_sweep[OF pre fail, of "[demo_hp (PFloat (3/10))]"] pre fail
    by (simp add: demo_eval)
qed

section \<open>Properties of the sampler and of the sweep over sampled sets\<close>

subsection \<open>What the sampler returns\<close>



text \<open>
  With a generator that keeps its promises, every value drawn lies in its range, and
  every set drawn assigns each parameter a value of that parameter's range.
\<close>

lemma draw_value_in_range:
  assumes ok: "rng_ok r" and dv: "draw_value r dst g = (Inr v, g')"
  shows "in_range dst v"
proof (cases dst)
  case (Choices vs)
  with dv show ?thesis
    by (auto simp: Let_def split: if_splits prod.splits)
next
  case Uniform
  from ok have "0 \<le> fst (rand_unit r g) \<and> fst (rand_unit r g) \<le> 1"
    by (simp add: rng_ok_def)
  with dv Uniform show ?thesis
    by (auto split: prod.splits)
next
  case (RandInt lo hi)
  with dv have lt: "lo < hi" and i: "v = PInt (fst (rand_int r lo hi g))"
    by (auto split: if_splits prod.splits)
  from ok lt have "lo \<le> fst (rand_int r lo hi g) \<and> fst (rand_int r lo hi g) < hi"
    by (simp add: rng_ok_def)
  with i RandInt show ?thesis by simp
qed

lemma draw_set_in_range:
  assumes ok: "rng_ok r"
  shows "draw_set r items params g = (Inr hp, g') \<Longrightarrow> distinct (map fst items) \<Longrightarrow>
     (\<forall>k. k \<notin> fst ` set items \<longrightarrow> hp k = params k) \<and>
     (\<forall>kd \<in> set items. \<exists>v. hp (fst kd) = Some v \<and> in_range (snd kd) v)"
proof (induction items arbitrary: params g)
  case Nil
  then show ?case by simp
next
  case (Cons kd items)
  from Cons.prems(1) obtain v g1 where v: "draw_value r (snd kd) g = (Inr v, g1)"
    and rest: "draw_set r items (params(fst kd \<mapsto> v)) g1 = (Inr hp, g')"
    by (auto split: prod.splits sum.splits)
  from Cons.prems(2) have dist: "distinct (map fst items)" and fresh: "fst kd \<notin> fst ` set items"
    by simp_all
  from Cons.IH[OF rest dist] have
    out: "\<forall>k. k \<notin> fst ` set items \<longrightarrow> hp k = (params(fst kd \<mapsto> v)) k" and
    inn: "\<forall>kd \<in> set items. \<exists>v. hp (fst kd) = Some v \<and> in_range (snd kd) v"
    by simp_all
  from out fresh have "hp (fst kd) = Some v" by simp
  moreover have "in_range (snd kd) v" using draw_value_in_range[OF ok v] .
  moreover have "\<forall>k. k \<notin> fst ` set (kd # items) \<longrightarrow> hp k = params k"
    using out by simp
  ultimately show ?case
    using inn by simp
qed

lemma draw_sets_in_range:
  assumes ok: "rng_ok r" and dist: "distinct (map fst ranges)"
  shows "draw_sets r ranges n g = (Inr hps, g') \<Longrightarrow> hp \<in> set hps \<Longrightarrow>
     (\<forall>kd \<in> set ranges. \<exists>v. hp (fst kd) = Some v \<and> in_range (snd kd) v)"
proof (induction n arbitrary: g hps)
  case 0
  then show ?case by simp
next
  case (Suc n)
  from Suc.prems(1) obtain h1 g1 hs where h1: "draw_set r ranges Map.empty g = (Inr h1, g1)"
    and hs: "draw_sets r ranges n g1 = (Inr hs, g')" and hps: "hps = h1 # hs"
    by (auto split: prod.splits sum.splits)
  show ?case
  proof (cases "hp = h1")
    case True
    with draw_set_in_range[OF ok h1 dist] show ?thesis by simp
  next
    case False
    with Suc.prems(2) hps have "hp \<in> set hs" by simp
    from Suc.IH[OF hs this] show ?thesis .
  qed
qed

lemma ParameterSampler_in_range:
  assumes ok: "rng_ok r" and dist: "distinct (map fst ranges)"
    and samp: "fst (ParameterSampler r ranges n random_state g) = Inr hps" and hp: "hp \<in> set hps"
  shows "\<forall>kd \<in> set ranges. \<exists>v. hp (fst kd) = Some v \<and> in_range (snd kd) v"
proof -
  let ?items = "sort_key fst ranges"
  from dist have dist': "distinct (map fst ?items)"
    by (simp add: distinct_map)
  have "\<forall>kd \<in> set ?items. \<exists>v. hp (fst kd) = Some v \<and> in_range (snd kd) v"
  proof (cases random_state)
    case None
    with samp have "draw_sets r ?items n g = (Inr hps, snd (draw_sets r ?items n g))"
      by (metis ParameterSampler_def option.simps(4) prod.collapse)
    from draw_sets_in_range[OF ok dist' this hp] show ?thesis .
  next
    case (Some seed)
    with samp have "draw_sets r ?items n (seed_rng r seed) =
        (Inr hps, snd (draw_sets r ?items n (seed_rng r seed)))"
      by (metis ParameterSampler_def fst_conv option.simps(5) prod.collapse)
    from draw_sets_in_range[OF ok dist' this hp] show ?thesis .
  qed
  then show ?thesis by simp
qed

subsection \<open>The counting generator\<close>

lemma rng_ok_counter: "rng_ok counter_rng"
proof -
  have "lo + int g mod (hi - lo) < hi" if "lo < hi" for lo hi :: int and g :: nat
  proof -
    from that have "int g mod (hi - lo) < hi - lo" by simp
    then show ?thesis by linarith
  qed
  moreover have "lo \<le> lo + int g mod (hi - lo)" if "lo < hi" for lo hi :: int and g :: nat
    using that by simp
  ultimately show ?thesis
    by (simp add: rng_ok_def counter_rng_def divide_le_eq)
qed

lemma counter_draws:
  "vs \<noteq> [] \<Longrightarrow> draw_value counter_rng (Choices vs) g = (Inr (vs ! (g mod length vs)), Suc g)"
  "draw_value counter_rng Uniform g = (Inr (PFloat (real (g mod 10) / 10)), Suc g)"
  by (simp_all add: counter_rng_def)

lemma hp_ranges_sorted:
  "sort_key fst hp_ranges =
     [(''batch_size'', Choices [PInt 8, PInt 16, PInt 32, PInt 64, PInt 128]),
      (''conv1_num_filters'', Choices [PInt 32, PInt 64, PInt 128]),
      (''conv2_num_filters'', Choices [PInt 32, PInt 64, PInt 128]),
      (''conv3_num_filters'', Choices [PInt 32, PInt 64, PInt 128]),
      (''conv4_num_filters'', Choices [PInt 32, PInt 64, PInt 128]),
      (''conv5_num_filters'', Choices [PInt 32, PInt 64, PInt 128]),
      (''dense1_size'', Choices [PInt 32, PInt 64, PInt 128, PInt 256, PInt 512]),
      (''dropout'', Uniform),
      (''learn_rate'', Choices [PFloat (1 / 10), PFloat (3 / 100), PFloat (1 / 1000)])]"
  by (simp add: hp_ranges_def less_eq_char_def less_char_def)

lemma counter_set_values:
  "\<exists>hp. draw_set counter_rng (sort_key fst hp_ranges) Map.empty g = (Inr hp, g + 9) \<and>
        hp ''conv1_num_filters'' = Some ([PInt 32, PInt 64, PInt 128] ! (Suc g mod 3)) \<and>
        hp ''dropout'' = Some (PFloat (real ((7 + g) mod 10) / 10))"
  by (simp add: hp_ranges_sorted counter_draws del: draw_value.simps)

lemma sampled_first:
  "\<exists>a b. hp_sets_of counter_rng g = Inr [a, b] \<and>
          a ''conv1_num_filters'' = Some (PInt 64) \<and> a ''dropout'' = Some (PFloat (3 / 5))"
proof -
  obtain a where a: "draw_set counter_rng (sort_key fst hp_ranges) Map.empty 99 = (Inr a, 99 + 9)"
    and a1: "a ''conv1_num_filters'' = Some ([PInt 32, PInt 64, PInt 128] ! (Suc 99 mod 3))"
    and a2: "a ''dropout'' = Some (PFloat (real ((7 + 99) mod 10) / 10))"
    using counter_set_values[of 99] by blast
  obtain b where
    b: "draw_set counter_rng (sort_key fst hp_ranges) Map.empty (99 + 9) = (Inr b, 99 + 9 + 9)"
    using counter_set_values[of "99 + 9"] by blast
  have "draw_sets counter_rng (sort_key fst hp_ranges) (Suc (Suc 0)) 99 = (Inr [a, b], 99 + 9 + 9)"
    using a b by simp
  then have "hp_sets_of counter_rng g = Inr [a, b]"
    by (simp add: hp_sets_of_def ParameterSampler_def numeral_2_eq_2 counter_rng_def)
  moreover from a1 have "a ''conv1_num_filters'' = Some (PInt 64)" by simp
  moreover from a2 have "a ''dropout'' = Some (PFloat (3 / 5))" by simp
  ultimately show ?thesis by blast
qed

subsection \<open>Sweeps that complete, sweeps that cannot\<close>






subsection \<open>The number of trials\<close>




subsection \<open>Reproducible sampling\<close>




text \<open>
  The order of the names is what makes the two runs agree: the draws themselves
  follow the order of the items they are given, and two orders of the same two items
  give different sets.
\<close>

lemma draws_follow_item_order:
  "hd (projr (fst (draw_sets counter_rng
        [(''dropout'', Choices [PInt 1, PInt 2]), (''batch_size'', Choices [PInt 1, PInt 2])]
        1 0))) ''dropout''
     \<noteq> hd (projr (fst (draw_sets counter_rng
        [(''batch_size'', Choices [PInt 1, PInt 2]), (''dropout'', Choices [PInt 1, PInt 2])]
        1 0))) ''dropout''"
  by (simp add: counter_draws del: draw_value.simps)

text \<open>
  Without a seed the result does depend on the ambient state: from the states \<open>0\<close> and
  \<open>1\<close> the counting generator draws different filter counts.
\<close>

lemma unseeded_sampler_depends_on_state:
  "hd (projr (fst (ParameterSampler counter_rng hp_ranges 1 None 0))) ''conv1_num_filters''
     \<noteq> hd (projr (fst (ParameterSampler counter_rng hp_ranges 1 None 1))) ''conv1_num_filters''"
proof -
  have one: "hd (projr (fst (ParameterSampler counter_rng hp_ranges 1 None g))) ''conv1_num_filters''
      = Some ([PInt 32, PInt 64, PInt 128] ! (Suc g mod 3))" for g
  proof -
    obtain a where a: "draw_set counter_rng (sort_key fst hp_ranges) Map.empty g = (Inr a, g + 9)"
      and a1: "a ''conv1_num_filters'' = Some ([PInt 32, PInt 64, PInt 128] ! (Suc g mod 3))"
      using counter_set_values[of g] by blast
    have "draw_sets counter_rng (sort_key fst hp_ranges) (Suc 0) g = (Inr [a], g + 9)"
      using a by simp
    then show ?thesis
      using a1 by (simp add: ParameterSampler_def)
  qed
  show ?thesis
    unfolding one by simp
qed

subsection \<open>Sampled values lie in their ranges\<close>

text \<open>
  C10. With a generator that keeps its promises, every set that the sampler returns
  for \<open>hp_ranges\<close> assigns the five filter counts, the dense size, the learning rate and
  the batch size a value of the parameter's candidate list, and assigns \<open>dropout\<close> a
  float between \<open>0\<close> and \<open>1\<close>.
\<close>

theorem sampled_values_in_ranges:
  assumes ok: "rng_ok r"
    and samp: "fst (ParameterSampler r hp_ranges n random_state g) = Inr hp_sets"
    and hp: "hp \<in> set hp_sets"
  shows "hp ''conv1_num_filters'' \<in> Some ` {PInt 32, PInt 64, PInt 128} \<and>
         hp ''conv2_num_filters'' \<in> Some ` {PInt 32, PInt 64, PInt 128} \<and>
         hp ''conv3_num_filters'' \<in> Some ` {PInt 32, PInt 64, PInt 128} \<and>
         hp ''conv4_num_filters'' \<in> Some ` {PInt 32, PInt 64, PInt 128} \<and>
         hp ''conv5_num_filters'' \<in> Some ` {PInt 32, PInt 64, PInt 128} \<and>
         hp ''dense1_size'' \<in> Some ` {PInt 32, PInt 64, PInt 128, PInt 256, PInt 512} \<and>
         hp ''learn_rate'' \<in> Some ` {PFloat (1 / 10), PFloat (3 / 100), PFloat (1 / 1000)} \<and>
         hp ''batch_size'' \<in> Some ` {PInt 8, PInt 16, PInt 32, PInt 64, PInt 128} \<and>
         (\<exists>u. hp ''dropout'' = Some (PFloat u) \<and> 0 \<le> u \<and> u \<le> 1)"
proof -
  have dist: "distinct (map fst hp_ranges)"
    by (simp add: hp_ranges_def)
  from ParameterSampler_in_range[OF ok dist samp hp]
  have all: "\<forall>kd \<in> set hp_ranges. \<exists>v. hp (fst kd) = Some v \<and> in_range (snd kd) v" .
  have pick: "\<exists>v. hp k = Some v \<and> in_range dst v" if "(k, dst) \<in> set hp_ranges" for k dst
    using all that by force
  have c1: "hp ''conv1_num_filters'' \<in> Some ` {PInt 32, PInt 64, PInt 128}"
    using pick[of "''conv1_num_filters''" "Choices [PInt 32, PInt 64, PInt 128]"]
    by (auto simp: hp_ranges_def)
  have c2: "hp ''conv2_num_filters'' \<in> Some ` {PInt 32, PInt 64, PInt 128}"
    using pick[of "''conv2_num_filters''" "Choices [PInt 32, PInt 64, PInt 128]"]
    by (auto simp: hp_ranges_def)
  have c3: "hp ''conv3_num_filters'' \<in> Some ` {PInt 32, PInt 64, PInt 128}"
    using pick[of "''conv3_num_filters''" "Choices [PInt 32, PInt 64, PInt 128]"]
    by (auto simp: hp_ranges_def)
  have c4: "hp ''conv4_num_filters'' \<in> Some ` {PInt 32, PInt 64, PInt 128}"
    using pick[of "''conv4_num_filters''" "Choices [PInt 32, PInt 64, PInt 128]"]
    by (auto simp: hp_ranges_def)
  have c5: "hp ''conv5_num_filters'' \<in> Some ` {PInt 32, PInt 64, PInt 128}"
    using pick[of "''conv5_num_filters''" "Choices [PInt 32, PInt 64, PInt 128]"]
    by (auto simp: hp_ranges_def)
  have d1: "hp ''dense1_size'' \<in> Some ` {PInt 32, PInt 64, PInt 128, PInt 256, PInt 512}"
    using pick[of "''dense1_size''" "Choices [PInt 32, PInt 64, PInt 128, PInt 256, PInt 512]"]
    by (auto simp: hp_ranges_def)
  have lr: "hp ''learn_rate'' \<in> Some ` {PFloat (1 / 10), PFloat (3 / 100), PFloat (1 / 1000)}"
    using pick[of "''learn_rate''" "Choices [PFloat (1 / 10), PFloat (3 / 100), PFloat (1 / 1000)]"]
    by (auto simp: hp_ranges_def)
  have bs: "hp ''batch_size'' \<in> Some ` {PInt 8, PInt 16, PInt 32, PInt 64, PInt 128}"
    using pick[of "''batch_size''" "Choices [PInt 8, PInt 16, PInt 32, PInt 64, PInt 128]"]
    by (auto simp: hp_ranges_def)
  have drop: "\<exists>u. hp ''dropout'' = Some (PFloat u) \<and> 0 \<le> u \<and> u \<le> 1"
  proof -
    from pick[of "''dropout''" Uniform] obtain v where
      v: "hp ''dropout'' = Some v" "in_range Uniform v"
      by (auto simp: hp_ranges_def)
    then show ?thesis by (cases v) auto
  qed
  from c1 c2 c3 c4 c5 d1 lr bs drop show ?thesis by blast
qed

text \<open>
  The first set that the counting generator draws with seed \<open>99\<close>.
\<close>

theorem sampled_values_in_ranges_witness:
  "rng_ok counter_rng \<and>
   fst (ParameterSampler counter_rng hp_ranges 2 (Some 99) 0) = Inr (projr (hp_sets_of counter_rng 0)) \<and>
   hd (projr (hp_sets_of counter_rng 0)) \<in> set (projr (hp_sets_of counter_rng 0)) \<and>
   hd (projr (hp_sets_of counter_rng 0)) ''conv1_num_filters'' = Some (PInt 64) \<and>
   hd (projr (hp_sets_of counter_rng 0)) ''dropout'' = Some (PFloat (3 / 5))"
proof -
  obtain a b where ab: "hp_sets_of counter_rng 0 = Inr [a, b]"
    and a: "a ''conv1_num_filters'' = Some (PInt 64)" "a ''dropout'' = Some (PFloat (3 / 5))"
    using sampled_first by blast
  from ab have samp: "fst (ParameterSampler counter_rng hp_ranges 2 (Some 99) 0)
      = Inr (projr (hp_sets_of counter_rng 0))"
    by (simp add: hp_sets_of_def)
  from ab have mem: "hd (projr (hp_sets_of counter_rng 0)) \<in> set (projr (hp_sets_of counter_rng 0))"
    by simp
  from sampled_values_in_ranges[OF rng_ok_counter samp mem] rng_ok_counter samp mem ab a
  show ?thesis by simp
qed

section \<open>Retraining the best model\<close>



subsection \<open>The concrete instance, retrained\<close>





subsection \<open>The model that is retrained\<close>



end
